theory Spec2Isabelle
  imports Complex_Main
begin

section \<open>Grid trading bot: the grid builder and the fill-driven order book\<close>

text \<open>
  A shallow embedding of \<^verbatim>\<open>logic.py\<close>: \<^verbatim>\<open>Config\<close>, \<^verbatim>\<open>ExchangeClient\<close>,
  \<^verbatim>\<open>GridManager\<close>, \<^verbatim>\<open>RunningBot\<close> and the module-level registry
  \<^verbatim>\<open>running_bots\<close> with \<^verbatim>\<open>start_bot\<close>.

  Conventions of the embedding.
  \<^item> A Python \<^verbatim>\<open>float\<close> is an exact rational (\<^typ>\<open>rat\<close>): prices are decimal
    quantities, and the binary representation error of IEEE doubles is not modelled.
    \<^verbatim>\<open>round(x, n)\<close> rounds to \<open>n\<close> decimals, a tie going to the even neighbour.
  \<^item> An exception is a value: a function that can raise returns \<open>exn + 'a\<close>, with
    \<open>Inl\<close> the exception. Python mutates objects in place, so a function that can
    raise after it has mutated returns the mutated state next to the exception.
  \<^item> The external collaborators (the exchange, the info endpoint, the fill monitor,
    the client-order-id library, the thread library) are oracles of an environment
    record. Each stateful oracle sees the whole trace of external calls made so far,
    the current call last, so its answer may depend on the history in any way.
  \<^item> \<^verbatim>\<open>self.log\<close> appends to the bot's queue; a message is kept as a constructor
    with its parameters in place of the formatted text. Calls to the module logger
    and to \<^verbatim>\<open>print\<close> leave no state behind and are not modelled.
\<close>

subsection \<open>Python values\<close>

datatype exn =
    AttributeError
  | ValueError
  | IndexError
  | KeyError
  | External nat

text \<open>\<^verbatim>\<open>int(x)\<close> of a float truncates towards zero.\<close>

definition py_int :: "rat \<Rightarrow> int" where
  "py_int x = (if 0 \<le> x then \<lfloor>x\<rfloor> else \<lceil>x\<rceil>)"

definition round_half_even :: "rat \<Rightarrow> int" where
  "round_half_even y =
     (let f = \<lfloor>y\<rfloor>; d = y - of_int f
      in if d < 1 / 2 then f
         else if 1 / 2 < d then f + 1
         else if even f then f else f + 1)"

text \<open>\<^verbatim>\<open>round(x, ndigits)\<close>.\<close>

definition py_round :: "rat \<Rightarrow> nat \<Rightarrow> rat" where
  "py_round x ndigits = of_int (round_half_even (x * 10 ^ ndigits)) / 10 ^ ndigits"

text \<open>\<^verbatim>\<open>str.lower\<close> on ASCII text.\<close>

definition lower_char :: "char \<Rightarrow> char" where
  "lower_char c =
     (let n = (of_char c :: nat)
      in if 65 \<le> n \<and> n \<le> 90 then char_of (n + 32) else c)"

definition lower :: "string \<Rightarrow> string" where
  "lower s = map lower_char s"

text \<open>
  \<^verbatim>\<open>min(xs, key=f)\<close>: the scan keeps the first element and replaces it only by a
  strictly smaller key, so the first minimal element wins; an empty list raises.
\<close>

definition min_step :: "('a \<Rightarrow> rat) \<Rightarrow> 'a \<Rightarrow> 'a \<Rightarrow> 'a" where
  "min_step f best y = (if f y < f best then y else best)"

fun py_min_key :: "('a \<Rightarrow> rat) \<Rightarrow> 'a list \<Rightarrow> exn + 'a" where
  "py_min_key f [] = Inl ValueError"
| "py_min_key f (x # xs) = Inr (foldl (min_step f) x xs)"

text \<open>
  \<^verbatim>\<open>np.arange(start, stop, step)\<close>: \<open>\<lceil>(stop - start) / step\<rceil>\<close> elements
  \<open>start + i * step\<close> (none when that number is not positive); a zero step raises.
\<close>

definition np_arange :: "rat \<Rightarrow> rat \<Rightarrow> rat \<Rightarrow> exn + rat list" where
  "np_arange start stop step =
     (if step = 0 then Inl ValueError
      else Inr (map (\<lambda>i. start + of_nat i * step) [0..<nat \<lceil>(stop - start) / step\<rceil>]))"

subsection \<open>Config and GridManager\<close>

record config =
  token :: string
  min_price :: rat
  max_price :: rat
  bin_step :: rat
  order_size :: rat
  api_url :: string
  secret_key :: string

text \<open>The list comprehension of \<^verbatim>\<open>build\<close>: the rounded levels.\<close>

definition grid_levels :: "config \<Rightarrow> exn + rat list" where
  "grid_levels cfg =
     (case np_arange (min_price cfg) (max_price cfg + bin_step cfg / 2) (bin_step cfg) of
        Inl e \<Rightarrow> Inl e
      | Inr ps \<Rightarrow> Inr (map (\<lambda>p. py_round p 4) ps))"

text \<open>\<^verbatim>\<open>closest = min(levels, key=lambda x: abs(x - round(last_close, 4)))\<close>.\<close>

definition closest_level :: "rat list \<Rightarrow> rat \<Rightarrow> exn + rat" where
  "closest_level levels last_close =
     py_min_key (\<lambda>x. \<bar>x - py_round last_close 4\<bar>) levels"

text \<open>
  \<^verbatim>\<open>GridManager.build\<close>. \<^verbatim>\<open>levels.remove(closest)\<close> deletes the first occurrence
  (\<^const>\<open>remove1\<close>); \<open>closest\<close> is an element of \<open>levels\<close>, so it cannot raise.
\<close>

definition build :: "config \<Rightarrow> rat \<Rightarrow> exn + (rat list \<times> rat list)" where
  "build cfg last_close =
     (case grid_levels cfg of
        Inl e \<Rightarrow> Inl e
      | Inr levels \<Rightarrow>
          (case closest_level levels last_close of
             Inl e \<Rightarrow> Inl e
           | Inr closest \<Rightarrow>
               (let levels' = remove1 closest levels
                in Inr (filter (\<lambda>p. p < closest) levels',
                        filter (\<lambda>p. closest < p) levels'))))"

text \<open>
  The sequence the specification describes: from \<open>min_price\<close> to \<open>max_price\<close>
  inclusive in steps of \<open>bin_step\<close>, every term rounded to four decimals. It follows
  the specification's words, for comparison with \<^const>\<open>grid_levels\<close>.
\<close>

definition spec_sequence :: "config \<Rightarrow> rat list" where
  "spec_sequence cfg =
     map (\<lambda>i. py_round (min_price cfg + of_nat i * bin_step cfg) 4)
       [0..<Suc (nat \<lfloor>(max_price cfg - min_price cfg) / bin_step cfg\<rfloor>)]"

subsection \<open>The external collaborators\<close>

text \<open>A client order id (\<^verbatim>\<open>Cloid\<close>) wraps a hexadecimal string.\<close>

type_synonym cloid = string

text \<open>
  The external calls the bot makes, in the order it makes them. The trace is the only
  record of what was asked of the exchange, so "no order was placed" is a statement
  about the trace.
\<close>

datatype call =
    UserState
  | CancelByCloid string cloid
  | CandlesSnapshot string
  | Order string bool rat rat cloid
  | NewClient string
  | NewMonitor
  | StartThread nat
  | StopMonitor nat
  | JoinThread nat

text \<open>
  The environment. \<open>on_main_thread\<close> answers
  \<^verbatim>\<open>threading.current_thread() == threading.main_thread()\<close> for the caller.
  \<open>user_state\<close> gives the \<^verbatim>\<open>clientOrderId\<close> of every open order (\<open>None\<close> where
  the key is missing); \<open>candles_snapshot\<close> gives the close \<^verbatim>\<open>"c"\<close> of every candle
  (\<open>None\<close> where the key is missing); \<open>exchange_order\<close> gives the \<^verbatim>\<open>"status"\<close> of
  the response. Every one of them may raise instead. The answer of
  \<^verbatim>\<open>cancel_by_cloid\<close> is not part of the record: \<^verbatim>\<open>cancel_all\<close> catches whatever
  it raises and goes on to the next order either way.
\<close>

record env =
  on_main_thread :: bool
  user_state :: "call list \<Rightarrow> exn + string option list"
  cloid_from_str :: "string \<Rightarrow> exn + cloid"
  cloid_from_int :: "int \<Rightarrow> exn + cloid"
  candles_snapshot :: "call list \<Rightarrow> exn + rat option list"
  exchange_order :: "call list \<Rightarrow> exn + string option"
  new_client :: "call list \<Rightarrow> exn option"
  new_monitor :: "call list \<Rightarrow> exn + nat"
  start_thread :: "call list \<Rightarrow> exn option"
  stop_monitor :: "call list \<Rightarrow> exn option"
  thread_is_alive :: "call list \<Rightarrow> nat \<Rightarrow> bool"
  join_thread :: "call list \<Rightarrow> exn option"

subsection \<open>ExchangeClient\<close>

type_synonym order_book = "rat \<rightharpoonup> string"

text \<open>
  \<^verbatim>\<open>get_close_price\<close>: \<^verbatim>\<open>float(candles[-1]["c"])\<close> raises on an empty list and on
  a candle without the key.
\<close>

definition get_close_price :: "env \<Rightarrow> config \<Rightarrow> call list \<Rightarrow> (exn + rat) \<times> call list" where
  "get_close_price ev cfg tr =
     (let tr1 = tr @ [CandlesSnapshot (token cfg)]
      in case candles_snapshot ev tr1 of
           Inl e \<Rightarrow> (Inl e, tr1)
         | Inr candles \<Rightarrow>
             (if candles = [] then (Inl IndexError, tr1)
              else case last candles of
                     None \<Rightarrow> (Inl KeyError, tr1)
                   | Some c \<Rightarrow> (Inr c, tr1)))"

text \<open>
  \<^verbatim>\<open>place_order\<close>. The client order id is made before the \<^verbatim>\<open>try\<close>, so an exception
  of \<^verbatim>\<open>Cloid.from_int\<close> escapes; an exception of \<^verbatim>\<open>exchange.order\<close> is caught and
  the call returns \<^verbatim>\<open>False\<close>. Only a response of status \<^verbatim>\<open>"ok"\<close> writes the book.
\<close>

definition place_order ::
  "env \<Rightarrow> config \<Rightarrow> rat \<Rightarrow> string \<Rightarrow> order_book \<Rightarrow> call list
     \<Rightarrow> (exn + bool) \<times> order_book \<times> call list" where
  "place_order ev cfg price side active_orders tr =
     (let is_buy = (lower side = ''buy'')
      in case cloid_from_int ev (py_int (price * 10000) + (if is_buy then 1 else 2)) of
           Inl e \<Rightarrow> (Inl e, active_orders, tr)
         | Inr cloid \<Rightarrow>
             (let price_key = py_round price 4;
                  tr1 = tr @ [Order (token cfg) is_buy (order_size cfg) price cloid]
              in case exchange_order ev tr1 of
                   Inl e \<Rightarrow> (Inr False, active_orders, tr1)
                 | Inr status \<Rightarrow>
                     (if status = Some ''ok''
                      then (Inr True, active_orders(price_key \<mapsto> lower side), tr1)
                      else (Inr False, active_orders, tr1))))"

text \<open>
  The loop of \<^verbatim>\<open>cancel_all\<close> over the open orders: an order without a client order
  id is skipped, \<^verbatim>\<open>Cloid.from_str\<close> is outside the \<^verbatim>\<open>try\<close> and its exception ends
  the loop.
\<close>

fun cancel_orders :: "env \<Rightarrow> string \<Rightarrow> string option list \<Rightarrow> call list \<Rightarrow> exn option \<times> call list" where
  "cancel_orders ev tok [] tr = (None, tr)"
| "cancel_orders ev tok (cloid_str # rest) tr =
     (case cloid_str of
        None \<Rightarrow> cancel_orders ev tok rest tr
      | Some s \<Rightarrow>
          (if s = [] then cancel_orders ev tok rest tr
           else case cloid_from_str ev s of
                  Inl e \<Rightarrow> (Some e, tr)
                | Inr cloid \<Rightarrow> cancel_orders ev tok rest (tr @ [CancelByCloid tok cloid])))"

definition cancel_all :: "env \<Rightarrow> config \<Rightarrow> call list \<Rightarrow> exn option \<times> call list" where
  "cancel_all ev cfg tr =
     (let tr1 = tr @ [UserState]
      in case user_state ev tr1 of
           Inl e \<Rightarrow> (Some e, tr1)
         | Inr orders \<Rightarrow> cancel_orders ev (token cfg) orders tr1)"

subsection \<open>RunningBot\<close>

datatype log_msg =
    AlreadyRunning
  | CancellingOrders
  | LastClose rat
  | StartedOk
  | StartError exn
  | FillDetected rat
  | NoActiveOrder rat
  | ProcessingFill string rat
  | PlacingOrder string rat
  | OutOfRange rat
  | FillError exn
  | StoppingBot
  | StoppedBot

record bot =
  config :: config
  active_orders :: order_book
  monitor :: "nat option"
  thread :: "nat option"
  running :: bool
  log_queue :: "log_msg list"

definition bot_log :: "bot \<Rightarrow> log_msg \<Rightarrow> bot" where
  "bot_log b m = b\<lparr>log_queue := log_queue b @ [m]\<rparr>"

text \<open>
  \<^verbatim>\<open>RunningBot(config)\<close>: the constructor of the client talks to the key library
  and the info endpoint and may raise.
\<close>

definition new_running_bot :: "env \<Rightarrow> config \<Rightarrow> call list \<Rightarrow> (exn + bot) \<times> call list" where
  "new_running_bot ev cfg tr =
     (let tr1 = tr @ [NewClient (secret_key cfg)]
      in case new_client ev tr1 of
           Some e \<Rightarrow> (Inl e, tr1)
         | None \<Rightarrow>
             (Inr \<lparr>config = cfg, active_orders = Map.empty, monitor = None, thread = None,
                   running = False, log_queue = []\<rparr>, tr1))"

text \<open>One of the two placement loops of \<^verbatim>\<open>start\<close>; the result of each order is dropped.\<close>

fun place_orders ::
  "env \<Rightarrow> config \<Rightarrow> string \<Rightarrow> rat list \<Rightarrow> order_book \<Rightarrow> call list
     \<Rightarrow> exn option \<times> order_book \<times> call list" where
  "place_orders ev cfg side [] book tr = (None, book, tr)"
| "place_orders ev cfg side (p # ps) book tr =
     (case place_order ev cfg p side book tr of
        (Inl e, book1, tr1) \<Rightarrow> (Some e, book1, tr1)
      | (Inr ok, book1, tr1) \<Rightarrow> place_orders ev cfg side ps book1 tr1)"

text \<open>
  The \<^verbatim>\<open>try\<close> block of \<^verbatim>\<open>start\<close>: \<open>None\<close> when it ran to its end. The
  two-second sleep after \<^verbatim>\<open>cancel_all\<close> leaves no state behind.
\<close>

definition start_body :: "env \<Rightarrow> bot \<Rightarrow> call list \<Rightarrow> exn option \<times> bot \<times> call list" where
  "start_body ev b tr =
     (let b1 = bot_log b CancellingOrders
      in case cancel_all ev (config b1) tr of
           (Some e, tr1) \<Rightarrow> (Some e, b1, tr1)
         | (None, tr1) \<Rightarrow>
             (case get_close_price ev (config b1) tr1 of
                (Inl e, tr2) \<Rightarrow> (Some e, b1, tr2)
              | (Inr last_close, tr2) \<Rightarrow>
                  (let b2 = bot_log b1 (LastClose last_close)
                   in case build (config b2) last_close of
                        Inl e \<Rightarrow> (Some e, b2, tr2)
                      | Inr (buys, sells) \<Rightarrow>
                          (case place_orders ev (config b2) ''buy'' (sort buys)
                                  (active_orders b2) tr2 of
                             (Some e, book3, tr3) \<Rightarrow> (Some e, b2\<lparr>active_orders := book3\<rparr>, tr3)
                           | (None, book3, tr3) \<Rightarrow>
                               (case place_orders ev (config b2) ''sell'' (sort sells) book3 tr3 of
                                  (Some e, book4, tr4) \<Rightarrow>
                                    (Some e, b2\<lparr>active_orders := book4\<rparr>, tr4)
                                | (None, book4, tr4) \<Rightarrow>
                                    (let b4 = b2\<lparr>active_orders := book4\<rparr>;
                                         tr5 = tr4 @ [NewMonitor]
                                     in case new_monitor ev tr5 of
                                          Inl e \<Rightarrow> (Some e, b4, tr5)
                                        | Inr m \<Rightarrow>
                                            (let b5 = b4\<lparr>monitor := Some m, thread := Some m\<rparr>;
                                                 tr6 = tr5 @ [StartThread m]
                                             in case start_thread ev tr6 of
                                                  Some e \<Rightarrow> (Some e, b5, tr6)
                                                | None \<Rightarrow>
                                                    (None, bot_log (b5\<lparr>running := True\<rparr>) StartedOk,
                                                     tr6))))))))"

text \<open>
  \<^verbatim>\<open>RunningBot.start\<close>. On the main thread the first statement evaluates
  \<^verbatim>\<open>self.handle_shutdown\<close>, an attribute the class does not define: the
  \<^verbatim>\<open>AttributeError\<close> is raised before the \<^verbatim>\<open>try\<close> and leaves \<^verbatim>\<open>start\<close>.
\<close>

definition start :: "env \<Rightarrow> bot \<Rightarrow> call list \<Rightarrow> (exn + bool) \<times> bot \<times> call list" where
  "start ev b tr =
     (if on_main_thread ev then (Inl AttributeError, b, tr)
      else if running b then (Inr False, bot_log b AlreadyRunning, tr)
      else case start_body ev b tr of
             (Some e, b1, tr1) \<Rightarrow> (Inr False, bot_log b1 (StartError e), tr1)
           | (None, b1, tr1) \<Rightarrow> (Inr True, b1, tr1))"

record trade =
  coin :: string
  trade_type :: string
  price :: rat

text \<open>
  The \<^verbatim>\<open>try\<close> block of \<^verbatim>\<open>on_fill\<close>. \<^verbatim>\<open>pop(price_key, None)\<close> removes the key
  before \<^verbatim>\<open>if not side\<close> is tested, and an empty string is falsy as \<^verbatim>\<open>None\<close> is.
\<close>

definition on_fill_body :: "env \<Rightarrow> bot \<Rightarrow> call list \<Rightarrow> trade \<Rightarrow> exn option \<times> bot \<times> call list" where
  "on_fill_body ev b tr t =
     (if coin t \<noteq> token (config b) \<or> trade_type t \<noteq> ''FILL'' then (None, b, tr)
      else
        (let price_key = py_round (price t) 4;
             b1 = bot_log b (FillDetected price_key);
             side = active_orders b1 price_key;
             b2 = b1\<lparr>active_orders := (active_orders b1)(price_key := None)\<rparr>
         in case side of
              None \<Rightarrow> (None, bot_log b2 (NoActiveOrder price_key), tr)
            | Some sd \<Rightarrow>
                (if sd = [] then (None, bot_log b2 (NoActiveOrder price_key), tr)
                 else
                   (let b3 = bot_log b2 (ProcessingFill sd price_key);
                        new_price = (if sd = ''buy'' then price_key + bin_step (config b3)
                                     else price_key - bin_step (config b3));
                        new_side = (if sd = ''buy'' then ''sell'' else ''buy'');
                        b4 = bot_log b3 (PlacingOrder new_side new_price)
                    in if min_price (config b4) \<le> new_price \<and> new_price \<le> max_price (config b4)
                       then (case place_order ev (config b4) new_price new_side
                                    (active_orders b4) tr of
                               (Inl e, book, tr1) \<Rightarrow> (Some e, b4\<lparr>active_orders := book\<rparr>, tr1)
                             | (Inr ok, book, tr1) \<Rightarrow> (None, b4\<lparr>active_orders := book\<rparr>, tr1))
                       else (None, bot_log b4 (OutOfRange new_price), tr)))))"

text \<open>\<^verbatim>\<open>on_fill\<close>: the \<^verbatim>\<open>except Exception\<close> clause logs and returns.\<close>

definition on_fill :: "env \<Rightarrow> bot \<Rightarrow> call list \<Rightarrow> trade \<Rightarrow> exn option \<times> bot \<times> call list" where
  "on_fill ev b tr t =
     (case on_fill_body ev b tr t of
        (Some e, b1, tr1) \<Rightarrow> (None, bot_log b1 (FillError e), tr1)
      | (None, b1, tr1) \<Rightarrow> (None, b1, tr1))"

text \<open>
  \<^verbatim>\<open>RunningBot.stop\<close>. Nothing here is inside a \<^verbatim>\<open>try\<close>: an exception of the
  monitor, of the join or of \<^verbatim>\<open>cancel_all\<close> leaves \<^verbatim>\<open>stop\<close> with \<open>running\<close> still
  set.
\<close>

definition stop :: "env \<Rightarrow> bot \<Rightarrow> call list \<Rightarrow> exn option \<times> bot \<times> call list" where
  "stop ev b tr =
     (if \<not> running b then (None, b, tr)
      else
        (let b1 = bot_log b StoppingBot
         in case (case monitor b1 of
                    None \<Rightarrow> (None, tr)
                  | Some m \<Rightarrow> (let tr1 = tr @ [StopMonitor m] in (stop_monitor ev tr1, tr1))) of
              (Some e, tr1) \<Rightarrow> (Some e, b1, tr1)
            | (None, tr1) \<Rightarrow>
                (case (case thread b1 of
                         None \<Rightarrow> (None, tr1)
                       | Some th \<Rightarrow>
                           (if thread_is_alive ev tr1 th
                            then (let tr2 = tr1 @ [JoinThread th] in (join_thread ev tr2, tr2))
                            else (None, tr1))) of
                   (Some e, tr2) \<Rightarrow> (Some e, b1, tr2)
                 | (None, tr2) \<Rightarrow>
                     (case cancel_all ev (config b1) tr2 of
                        (Some e, tr3) \<Rightarrow> (Some e, b1, tr3)
                      | (None, tr3) \<Rightarrow> (None, bot_log (b1\<lparr>running := False\<rparr>) StoppedBot, tr3)))))"

subsection \<open>The registry\<close>

text \<open>
  The dictionary \<^verbatim>\<open>start_bot\<close> receives: its text entries and its numeric entries
  (the dashboard stores the token and the key as text and the four numbers as JSON
  numbers). A missing key raises \<^verbatim>\<open>KeyError\<close>.
\<close>

record config_dict =
  str_items :: "string \<rightharpoonup> string"
  num_items :: "string \<rightharpoonup> rat"

definition get_str :: "config_dict \<Rightarrow> string \<Rightarrow> exn + string" where
  "get_str d k = (case str_items d k of None \<Rightarrow> Inl KeyError | Some v \<Rightarrow> Inr v)"

definition get_num :: "config_dict \<Rightarrow> string \<Rightarrow> exn + rat" where
  "get_num d k = (case num_items d k of None \<Rightarrow> Inl KeyError | Some v \<Rightarrow> Inr v)"

text \<open>\<^verbatim>\<open>constants.MAINNET_API_URL\<close> of the exchange's SDK.\<close>

definition MAINNET_API_URL :: string where
  "MAINNET_API_URL = ''https://api.hyperliquid.xyz''"

text \<open>The call \<^verbatim>\<open>Config(token=config_dict['token_symbol'], ...)\<close>, its arguments in order.\<close>

definition make_config :: "config_dict \<Rightarrow> exn + config" where
  "make_config d =
     (case get_str d ''token_symbol'' of Inl e \<Rightarrow> Inl e | Inr tok \<Rightarrow>
      case get_num d ''min_price'' of Inl e \<Rightarrow> Inl e | Inr mn \<Rightarrow>
      case get_num d ''max_price'' of Inl e \<Rightarrow> Inl e | Inr mx \<Rightarrow>
      case get_num d ''bin_step'' of Inl e \<Rightarrow> Inl e | Inr st \<Rightarrow>
      case get_num d ''order_size'' of Inl e \<Rightarrow> Inl e | Inr sz \<Rightarrow>
      case get_str d ''private_key'' of Inl e \<Rightarrow> Inl e | Inr key \<Rightarrow>
        Inr \<lparr>token = tok, min_price = mn, max_price = mx, bin_step = st, order_size = sz,
             api_url = MAINNET_API_URL, secret_key = key\<rparr>)"

type_synonym registry = "string \<rightharpoonup> bot"

text \<open>
  \<^verbatim>\<open>start_bot\<close>: every exception is caught and reported as \<^verbatim>\<open>False\<close>. The function
  never reads \<^verbatim>\<open>running_bots\<close>; it writes the new bot under \<open>bot_id\<close> when
  \<^verbatim>\<open>start\<close> returned \<^verbatim>\<open>True\<close>.
\<close>

definition start_bot ::
  "env \<Rightarrow> string \<Rightarrow> config_dict \<Rightarrow> registry \<Rightarrow> call list \<Rightarrow> bool \<times> registry \<times> call list" where
  "start_bot ev bot_id d running_bots tr =
     (case make_config d of
        Inl e \<Rightarrow> (False, running_bots, tr)
      | Inr cfg \<Rightarrow>
          (case new_running_bot ev cfg tr of
             (Inl e, tr1) \<Rightarrow> (False, running_bots, tr1)
           | (Inr b, tr1) \<Rightarrow>
               (case start ev b tr1 of
                  (Inl e, b1, tr2) \<Rightarrow> (False, running_bots, tr2)
                | (Inr started, b1, tr2) \<Rightarrow>
                    (if started then (True, running_bots(bot_id \<mapsto> b1), tr2)
                     else (False, running_bots, tr2)))))"

subsection \<open>Predicates of the properties\<close>

text \<open>
  The exchange accepts an order of \<^const>\<open>place_order\<close>: the client order id is made
  and the response has status \<^verbatim>\<open>"ok"\<close>.
\<close>

definition accepted :: "env \<Rightarrow> config \<Rightarrow> call list \<Rightarrow> rat \<Rightarrow> bool \<Rightarrow> bool" where
  "accepted ev cfg tr p is_buy =
     (case cloid_from_int ev (py_int (p * 10000) + (if is_buy then 1 else 2)) of
        Inl e \<Rightarrow> False
      | Inr cloid \<Rightarrow>
          exchange_order ev (tr @ [Order (token cfg) is_buy (order_size cfg) p cloid])
            = Inr (Some ''ok''))"

text \<open>A price level: a price that rounding to four decimals leaves as it is.\<close>

definition is_level :: "rat \<Rightarrow> bool" where
  "is_level k \<longleftrightarrow> py_round k 4 = k"

text \<open>The invariant of the order book: every key a level, every value a side.\<close>

definition book_inv :: "order_book \<Rightarrow> bool" where
  "book_inv book \<longleftrightarrow> (\<forall>k v. book k = Some v \<longrightarrow> is_level k \<and> (v = ''buy'' \<or> v = ''sell''))"

text \<open>The same notification delivered twice in a row.\<close>

definition on_fill_twice :: "env \<Rightarrow> bot \<Rightarrow> call list \<Rightarrow> trade \<Rightarrow> exn option \<times> bot \<times> call list" where
  "on_fill_twice ev b tr t = (case on_fill ev b tr t of (r, b1, tr1) \<Rightarrow> on_fill ev b1 tr1 t)"

subsection \<open>Concrete inputs\<close>

text \<open>The scenario of the specification: a grid from 1.00 to 1.10 in steps of 0.02.\<close>

definition scenario_cfg :: config where
  "scenario_cfg = \<lparr>token = ''ETH'', min_price = 1, max_price = 11 / 10, bin_step = 1 / 50,
     order_size = 1, api_url = MAINNET_API_URL, secret_key = ''0xkey''\<rparr>"

text \<open>A range that is not a multiple of the step: 1.00 to 2.75 in steps of 1.\<close>

definition overshoot_cfg :: config where
  "overshoot_cfg = \<lparr>token = ''ETH'', min_price = 1, max_price = 11 / 4, bin_step = 1,
     order_size = 1, api_url = MAINNET_API_URL, secret_key = ''0xkey''\<rparr>"

text \<open>
  An environment in which every collaborator succeeds, one whose exchange answers
  with an error status, and one whose client order ids cannot be made.
\<close>

definition env_ok :: env where
  "env_ok = \<lparr>on_main_thread = False,
     user_state = (\<lambda>tr. Inr []),
     cloid_from_str = (\<lambda>s. Inr s),
     cloid_from_int = (\<lambda>n. Inr ''0x01''),
     candles_snapshot = (\<lambda>tr. Inr [Some (3 / 2)]),
     exchange_order = (\<lambda>tr. Inr (Some ''ok'')),
     new_client = (\<lambda>tr. None),
     new_monitor = (\<lambda>tr. Inr 7),
     start_thread = (\<lambda>tr. None),
     stop_monitor = (\<lambda>tr. None),
     thread_is_alive = (\<lambda>tr th. True),
     join_thread = (\<lambda>tr. None)\<rparr>"

definition env_reject :: env where
  "env_reject = env_ok\<lparr>exchange_order := (\<lambda>tr. Inr (Some ''err''))\<rparr>"

definition env_cloid_raises :: env where
  "env_cloid_raises = env_ok\<lparr>cloid_from_int := (\<lambda>n. Inl (External 1))\<rparr>"

definition grid_cfg :: config where
  "grid_cfg = \<lparr>token = ''ETH'', min_price = 1, max_price = 2, bin_step = 1 / 4,
     order_size = 1, api_url = MAINNET_API_URL, secret_key = ''0xkey''\<rparr>"

definition bot_with_buy :: bot where
  "bot_with_buy = \<lparr>config = grid_cfg, active_orders = [3 / 2 \<mapsto> ''buy''],
     monitor = Some 7, thread = Some 7, running = True, log_queue = []\<rparr>"

definition fill_at_buy :: trade where
  "fill_at_buy = \<lparr>coin = ''ETH'', trade_type = ''FILL'', price = 3 / 2\<rparr>"

definition tiny_step_cfg :: config where
  "tiny_step_cfg = \<lparr>token = ''ETH'', min_price = 1 / 2, max_price = 2, bin_step = 1 / 32768,
     order_size = 1, api_url = MAINNET_API_URL, secret_key = ''0xkey''\<rparr>"

definition tiny_step_bot :: bot where
  "tiny_step_bot = \<lparr>config = tiny_step_cfg, active_orders = [1 \<mapsto> ''buy''],
     monitor = Some 7, thread = Some 7, running = True, log_queue = []\<rparr>"

definition fill_at_one :: trade where
  "fill_at_one = \<lparr>coin = ''ETH'', trade_type = ''FILL'', price = 1\<rparr>"

text \<open>A fill on another market, a dictionary of the dashboard, a registry with one running bot.\<close>

definition fill_other_market :: trade where
  "fill_other_market = \<lparr>coin = ''BTC'', trade_type = ''FILL'', price = 3 / 2\<rparr>"

definition grid_dict :: config_dict where
  "grid_dict = \<lparr>str_items = [''token_symbol'' \<mapsto> ''ETH'', ''private_key'' \<mapsto> ''0xkey''],
     num_items = [''min_price'' \<mapsto> 1, ''max_price'' \<mapsto> 2, ''bin_step'' \<mapsto> 1 / 4,
                  ''order_size'' \<mapsto> 1]\<rparr>"

definition registry_running :: registry where
  "registry_running = [''bot1'' \<mapsto> bot_with_buy]"

text \<open>A book that tracks a buy at 0.50, more than one step below the range of the grid.\<close>

definition low_buy_bot :: bot where
  "low_buy_bot = \<lparr>config = grid_cfg, active_orders = [1 / 2 \<mapsto> ''buy''],
     monitor = Some 7, thread = Some 7, running = True, log_queue = []\<rparr>"

definition fill_at_half :: trade where
  "fill_at_half = \<lparr>coin = ''ETH'', trade_type = ''FILL'', price = 1 / 2\<rparr>"

section \<open>Properties\<close>

subsection \<open>Rounding and the minimum scan\<close>

lemma lower_buy [simp]: "lower ''buy'' = ''buy''"
  by code_simp

lemma lower_sell [simp]: "lower ''sell'' = ''sell''"
  by code_simp

lemma round_half_even_ge_floor: "\<lfloor>y\<rfloor> \<le> round_half_even y"
  by (simp add: round_half_even_def Let_def)

lemma round_half_even_le_floor_Suc: "round_half_even y \<le> \<lfloor>y\<rfloor> + 1"
  by (simp add: round_half_even_def Let_def)

lemma round_half_even_of_int [simp]: "round_half_even (of_int k) = k"
  by (simp add: round_half_even_def Let_def)

lemma round_half_even_mono:
  assumes "x \<le> y"
  shows "round_half_even x \<le> round_half_even y"
proof -
  have le: "\<lfloor>x\<rfloor> \<le> \<lfloor>y\<rfloor>" using assms by (rule floor_mono)
  show ?thesis
  proof (cases "\<lfloor>x\<rfloor> = \<lfloor>y\<rfloor>")
    case True
    then have "x - of_int \<lfloor>x\<rfloor> \<le> y - of_int \<lfloor>y\<rfloor>" using assms by simp
    with True show ?thesis
      by (auto simp: round_half_even_def Let_def)
  next
    case False
    with le have "\<lfloor>x\<rfloor> + 1 \<le> \<lfloor>y\<rfloor>" by simp
    with round_half_even_le_floor_Suc [of x] round_half_even_ge_floor [of y]
    show ?thesis by linarith
  qed
qed

lemma py_round_mono: "x \<le> y \<Longrightarrow> py_round x n \<le> py_round y n"
  unfolding py_round_def
  by (intro divide_right_mono round_half_even_mono mult_right_mono) (simp_all add: round_half_even_mono mult_right_mono)

lemma py_round_idem [simp]: "py_round (py_round x n) n = py_round x n"
  by (simp add: py_round_def)

lemma is_level_py_round [simp]: "is_level (py_round x 4)"
  by (simp add: is_level_def)

lemma level_plus_step:
  assumes "1 / 10000 \<le> s"
  shows "py_round x 4 < py_round (py_round x 4 + s) 4"
proof -
  define k where "k = round_half_even (x * 10 ^ 4)"
  have px: "py_round x 4 = of_int k / 10 ^ 4" by (simp add: py_round_def k_def)
  have s: "1 \<le> s * 10 ^ 4" using assms by simp
  have "(of_int k / 10 ^ 4 + s) * 10 ^ 4 = of_int k + s * 10 ^ 4"
    by (simp add: field_simps)
  moreover have "of_int (k + 1) \<le> (of_int k :: rat) + s * 10 ^ 4" using s by simp
  then have "k + 1 \<le> \<lfloor>(of_int k :: rat) + s * 10 ^ 4\<rfloor>" by (simp only: le_floor_iff)
  then have "k + 1 \<le> round_half_even (of_int k + s * 10 ^ 4)"
    using round_half_even_ge_floor [of "of_int k + s * 10 ^ 4"] by linarith
  ultimately have "k < round_half_even ((py_round x 4 + s) * 10 ^ 4)"
    unfolding px by simp
  then have "(of_int k :: rat) < of_int (round_half_even ((py_round x 4 + s) * 10 ^ 4))"
    by (simp only: of_int_less_iff)
  then show ?thesis
    unfolding px py_round_def [of "of_int k / 10 ^ 4 + s"]
    by (simp add: divide_strict_right_mono)
qed

lemma level_minus_step:
  assumes "1 / 10000 \<le> s"
  shows "py_round (py_round x 4 - s) 4 < py_round x 4"
proof -
  define k where "k = round_half_even (x * 10 ^ 4)"
  have px: "py_round x 4 = of_int k / 10 ^ 4" by (simp add: py_round_def k_def)
  have s: "1 \<le> s * 10 ^ 4" using assms by simp
  have eq: "(of_int k / 10 ^ 4 - s) * 10 ^ 4 = of_int k - s * 10 ^ 4"
    by (simp add: field_simps)
  have "(of_int k :: rat) - s * 10 ^ 4 \<le> of_int (k - 1)" using s by simp
  then have "round_half_even (of_int k - s * 10 ^ 4) \<le> round_half_even (of_int (k - 1))"
    by (rule round_half_even_mono)
  moreover have "round_half_even (of_int (k - 1)) = k - 1"
    by (rule round_half_even_of_int)
  ultimately have "round_half_even ((py_round x 4 - s) * 10 ^ 4) < k"
    unfolding px eq by linarith
  then have "(of_int (round_half_even ((py_round x 4 - s) * 10 ^ 4)) :: rat) < of_int k"
    by (simp only: of_int_less_iff)
  then show ?thesis
    unfolding px py_round_def [of "of_int k / 10 ^ 4 - s"]
    by (simp add: divide_strict_right_mono)
qed

lemma foldl_min_step_first:
  "\<exists>i<length (x # xs). (x # xs) ! i = foldl (min_step f) x xs
      \<and> (\<forall>j<length (x # xs). f (foldl (min_step f) x xs) \<le> f ((x # xs) ! j))
      \<and> (\<forall>j<i. f (foldl (min_step f) x xs) < f ((x # xs) ! j))"
proof (induction xs rule: rev_induct)
  case Nil
  show ?case by simp
next
  case (snoc y ys)
  let ?r = "foldl (min_step f) x ys"
  from snoc obtain i where i: "i < length (x # ys)" "(x # ys) ! i = ?r"
    and mn: "\<forall>j<length (x # ys). f ?r \<le> f ((x # ys) ! j)"
    and fst: "\<forall>j<i. f ?r < f ((x # ys) ! j)"
    by blast
  have nth_old: "(x # ys @ [y]) ! j = (x # ys) ! j" if "j < length (x # ys)" for j
    using that by (metis append_Cons nth_append)
  have nth_new: "(x # ys @ [y]) ! length (x # ys) = y"
    by (metis append_Cons nth_append_length)
  show ?case
  proof (cases "f y < f ?r")
    case True
    then have res: "foldl (min_step f) x (ys @ [y]) = y"
      by (simp add: min_step_def)
    have "\<forall>j<length (x # ys @ [y]). f y \<le> f ((x # ys @ [y]) ! j)"
    proof (intro allI impI)
      fix j assume "j < length (x # ys @ [y])"
      then consider "j < length (x # ys)" | "j = length (x # ys)" by fastforce
      then show "f y \<le> f ((x # ys @ [y]) ! j)"
      proof cases
        case 1
        with mn True nth_old show ?thesis by fastforce
      next
        case 2
        with nth_new show ?thesis by simp
      qed
    qed
    moreover have "\<forall>j<length (x # ys). f y < f ((x # ys @ [y]) ! j)"
      using mn True nth_old by fastforce
    ultimately show ?thesis
      unfolding res using nth_new
      by (intro exI [of _ "length (x # ys)"]) simp
  next
    case False
    then have res: "foldl (min_step f) x (ys @ [y]) = ?r"
      by (simp add: min_step_def)
    have "\<forall>j<length (x # ys @ [y]). f ?r \<le> f ((x # ys @ [y]) ! j)"
    proof (intro allI impI)
      fix j assume "j < length (x # ys @ [y])"
      then consider "j < length (x # ys)" | "j = length (x # ys)" by fastforce
      then show "f ?r \<le> f ((x # ys @ [y]) ! j)"
      proof cases
        case 1
        with mn nth_old show ?thesis by fastforce
      next
        case 2
        with nth_new False show ?thesis by simp
      qed
    qed
    moreover have "\<forall>j<i. f ?r < f ((x # ys @ [y]) ! j)"
      using fst i(1) nth_old by fastforce
    moreover have "(x # ys @ [y]) ! i = ?r" "i < length (x # ys @ [y])"
      using i nth_old by auto
    ultimately show ?thesis
      unfolding res by blast
  qed
qed

lemma py_min_key_first:
  assumes "xs \<noteq> []"
  shows "\<exists>c i. py_min_key f xs = Inr c \<and> i < length xs \<and> xs ! i = c
      \<and> (\<forall>j<length xs. f c \<le> f (xs ! j)) \<and> (\<forall>j<i. f c < f (xs ! j))"
proof -
  from assms obtain x ys where xs: "xs = x # ys" by (cases xs) auto
  from foldl_min_step_first [of x ys f] show ?thesis
    unfolding xs by auto
qed

lemma filter_remove1_other: "\<not> P c \<Longrightarrow> filter P (remove1 c xs) = filter P xs"
  by (induction xs) auto

subsection \<open>The grid\<close>

lemma grid_levels_sorted:
  assumes "0 < bin_step cfg" "grid_levels cfg = Inr levels"
  shows "sorted levels"
proof -
  let ?f = "\<lambda>i::nat. py_round (min_price cfg + of_nat i * bin_step cfg) 4"
  from assms obtain n where lv: "levels = map ?f [0..<n]"
    by (auto simp: grid_levels_def np_arange_def comp_def split: if_splits)
  have "?f i \<le> ?f j" if "i \<le> j" for i j
  proof -
    have "(of_nat i :: rat) \<le> of_nat j" using that by simp
    then have "of_nat i * bin_step cfg \<le> of_nat j * bin_step cfg"
      using assms(1) by (simp add: mult_right_mono)
    then show ?thesis by (intro py_round_mono) simp
  qed
  then have "sorted_wrt (\<lambda>i j. ?f i \<le> ?f j) [0..<n]"
    by (intro sorted_wrt_mono_rel [OF _ sorted_upt]) simp
  then show ?thesis unfolding lv by (simp add: sorted_map)
qed

lemma build_Inr_cases:
  assumes "build cfg r = Inr (buys, sells)"
  obtains levels c where "grid_levels cfg = Inr levels" "closest_level levels r = Inr c"
    "buys = filter (\<lambda>p. p < c) levels" "sells = filter (\<lambda>p. c < p) levels"
proof -
  from assms obtain levels c where g: "grid_levels cfg = Inr levels"
    and c: "closest_level levels r = Inr c"
    and bs: "buys = filter (\<lambda>p. p < c) (remove1 c levels)"
            "sells = filter (\<lambda>p. c < p) (remove1 c levels)"
    by (auto simp: build_def Let_def split: sum.splits)
  from bs have "buys = filter (\<lambda>p. p < c) levels" "sells = filter (\<lambda>p. c < p) levels"
    by (simp_all add: filter_remove1_other)
  with g c show ?thesis by (rule that)
qed

lemma closest_level_first:
  assumes "closest_level levels r = Inr c"
  shows "\<exists>i<length levels. levels ! i = c
      \<and> (\<forall>j<length levels. \<bar>c - py_round r 4\<bar> \<le> \<bar>levels ! j - py_round r 4\<bar>)
      \<and> (\<forall>j<i. \<bar>c - py_round r 4\<bar> < \<bar>levels ! j - py_round r 4\<bar>)"
proof -
  from assms have ne: "levels \<noteq> []"
    by (auto simp: closest_level_def)
  from py_min_key_first [OF ne, of "\<lambda>x. \<bar>x - py_round r 4\<bar>"] assms
  show ?thesis
    unfolding closest_level_def by auto
qed

text \<open>
  What \<^const>\<open>build\<close> returns splits the generated levels around the closest one:
  the buys below it, the sells above it, the level itself on neither side.
\<close>

lemma build_partition:
  assumes "build cfg r = Inr (buys, sells)"
  shows "\<exists>levels c. grid_levels cfg = Inr levels \<and> closest_level levels r = Inr c
      \<and> c \<in> set levels \<and> set buys \<union> set sells \<union> {c} = set levels
      \<and> set buys \<inter> set sells = {} \<and> c \<notin> set buys \<and> c \<notin> set sells
      \<and> (\<forall>b\<in>set buys. b < c) \<and> (\<forall>s\<in>set sells. c < s)"
proof -
  from assms obtain levels c where g: "grid_levels cfg = Inr levels"
    and c: "closest_level levels r = Inr c"
    and bs: "buys = filter (\<lambda>p. p < c) levels" "sells = filter (\<lambda>p. c < p) levels"
    by (rule build_Inr_cases)
  from closest_level_first [OF c] have mem: "c \<in> set levels"
    by (auto simp: in_set_conv_nth)
  have "set buys \<union> set sells \<union> {c} = set levels"
    using mem unfolding bs by auto
  moreover have "set buys \<inter> set sells = {}" unfolding bs by auto
  ultimately show ?thesis using g c mem unfolding bs by auto
qed

text \<open>
  The generated levels are the sequence of the specification whenever the range
  leaves at most half a step over (in particular when it is a multiple of the step).
\<close>

lemma grid_levels_eq_spec_sequence:
  assumes "min_price cfg \<le> max_price cfg" and "0 < bin_step cfg"
    and "(max_price cfg - min_price cfg) / bin_step cfg
           - of_int \<lfloor>(max_price cfg - min_price cfg) / bin_step cfg\<rfloor> \<le> 1 / 2"
  shows "grid_levels cfg = Inr (spec_sequence cfg)"
proof -
  define q where "q = (max_price cfg - min_price cfg) / bin_step cfg"
  have q0: "0 \<le> q" using assms(1,2) by (simp add: q_def)
  have stop: "(max_price cfg + bin_step cfg / 2 - min_price cfg) / bin_step cfg = q + 1 / 2"
    using assms(2) by (simp add: q_def field_simps)
  have "\<lceil>q + 1 / 2\<rceil> = \<lfloor>q\<rfloor> + 1"
  proof (rule ceiling_unique)
    have "of_int (\<lfloor>q\<rfloor> + 1) - 1 = (of_int \<lfloor>q\<rfloor> :: rat)" by simp
    with of_int_floor_le [of q] show "of_int (\<lfloor>q\<rfloor> + 1) - 1 < q + 1 / 2" by linarith
    have "q - of_int \<lfloor>q\<rfloor> \<le> 1 / 2" using assms(3) unfolding q_def .
    moreover have "(of_int (\<lfloor>q\<rfloor> + 1) :: rat) = of_int \<lfloor>q\<rfloor> + 1" by simp
    ultimately show "q + 1 / 2 \<le> of_int (\<lfloor>q\<rfloor> + 1)" by linarith
  qed
  moreover have "0 \<le> \<lfloor>q\<rfloor>" using q0 by (simp only: zero_le_floor)
  then have "nat (\<lfloor>q\<rfloor> + 1) = Suc (nat \<lfloor>q\<rfloor>)" by linarith
  ultimately have "nat \<lceil>q + 1 / 2\<rceil> = Suc (nat \<lfloor>q\<rfloor>)" by (simp only:)
  then show ?thesis
    using assms(2) unfolding grid_levels_def np_arange_def spec_sequence_def stop q_def [symmetric]
    by (simp add: comp_def)
qed



text \<open>
  C1, at a range that is not a multiple of the step (1.00 to 2.75 by 1): the scan
  runs to \<open>max_price + bin_step / 2\<close>, so the generated levels are 1, 2, 3 and the
  sell side holds 3, above \<open>max_price\<close>; the sequence from 1.00 to 2.75 inclusive is
  1, 2. The levels returned with the excluded one are not that sequence.
\<close>

theorem build_overshoots_max_price:
  "min_price overshoot_cfg < max_price overshoot_cfg
   \<and> 0 < bin_step overshoot_cfg
   \<and> bin_step overshoot_cfg < max_price overshoot_cfg - min_price overshoot_cfg
   \<and> grid_levels overshoot_cfg = Inr [1, 2, 3]
   \<and> spec_sequence overshoot_cfg = [1, 2]
   \<and> build overshoot_cfg 1 = Inr ([], [2, 3])
   \<and> max_price overshoot_cfg < 3
   \<and> set [] \<union> set [2, 3] \<union> {1} \<noteq> set (spec_sequence overshoot_cfg)"
  by code_simp

subsection \<open>The fill handler\<close>

lemma place_order_book:
  "fst (snd (place_order ev cfg p side book tr)) =
     (if accepted ev cfg tr p (lower side = ''buy'') then book(py_round p 4 \<mapsto> lower side)
      else book)"
  by (simp add: place_order_def accepted_def Let_def split: sum.splits)

lemma log_simps [simp]:
  "config (bot_log b m) = config b"
  "active_orders (bot_log b m) = active_orders b"
  "running (bot_log b m) = running b"
  "monitor (bot_log b m) = monitor b"
  "thread (bot_log b m) = thread b"
  "log_queue (bot_log b m) = log_queue b @ [m]"
  by (simp_all add: bot_log_def)

lemma on_fill_config [simp]: "config (fst (snd (on_fill ev b tr t))) = config b"
  by (simp add: on_fill_def on_fill_body_def Let_def split: prod.splits sum.splits option.splits)

lemma on_fill_result [simp]: "fst (on_fill ev b tr t) = None"
  by (simp add: on_fill_def split: prod.splits option.splits)

text \<open>The order book after \<^const>\<open>on_fill\<close>, in every case.\<close>

lemma on_fill_book:
  "active_orders (fst (snd (on_fill ev b tr t))) =
     (if coin t \<noteq> token (config b) \<or> trade_type t \<noteq> ''FILL'' then active_orders b
      else let P = py_round (price t) 4; book = (active_orders b)(P := None)
           in case active_orders b P of
                None \<Rightarrow> book
              | Some sd \<Rightarrow>
                  if sd = [] then book
                  else let np = (if sd = ''buy'' then P + bin_step (config b)
                                 else P - bin_step (config b))
                       in if min_price (config b) \<le> np \<and> np \<le> max_price (config b)
                             \<and> accepted ev (config b) tr np (sd \<noteq> ''buy'')
                          then book(py_round np 4 \<mapsto> (if sd = ''buy'' then ''sell'' else ''buy''))
                          else book)"
proof (cases "coin t \<noteq> token (config b) \<or> trade_type t \<noteq> ''FILL''")
  case True
  then show ?thesis by (auto simp: on_fill_def on_fill_body_def)
next
  case market: False
  let ?P = "py_round (price t) 4"
  show ?thesis
  proof (cases "active_orders b ?P")
    case None
    with market show ?thesis by (simp add: on_fill_def on_fill_body_def Let_def)
  next
    case (Some sd)
    show ?thesis
    proof (cases "sd = []")
      case True
      with market Some show ?thesis by (simp add: on_fill_def on_fill_body_def Let_def)
    next
      case nonempty: False
      let ?np = "if sd = ''buy'' then ?P + bin_step (config b) else ?P - bin_step (config b)"
      let ?ns = "if sd = ''buy'' then ''sell'' else ''buy''"
      show ?thesis
      proof (cases "min_price (config b) \<le> ?np \<and> ?np \<le> max_price (config b)")
        case False
        with market Some nonempty show ?thesis
          by (auto simp: on_fill_def on_fill_body_def Let_def)
      next
        case True
        obtain r book1 tr1 where
          po: "place_order ev (config b) ?np ?ns ((active_orders b)(?P := None)) tr = (r, book1, tr1)"
          by (metis prod_cases3)
        from place_order_book [of ev "config b" ?np ?ns "(active_orders b)(?P := None)" tr] po
        have book1: "book1 = (if accepted ev (config b) tr ?np (sd \<noteq> ''buy'')
              then ((active_orders b)(?P := None))(py_round ?np 4 \<mapsto> ?ns)
              else (active_orders b)(?P := None))"
          by (auto split: if_splits)
        have "active_orders (fst (snd (on_fill ev b tr t))) = book1"
          using market Some nonempty True po
          by (cases r) (auto simp: on_fill_def on_fill_body_def Let_def)
        with market Some nonempty True book1 show ?thesis
          by (simp add: Let_def)
      qed
    qed
  qed
qed

lemma on_fill_untracked:
  assumes "coin t \<noteq> token (config b) \<or> trade_type t \<noteq> ''FILL''
             \<or> active_orders b (py_round (price t) 4) = None"
  shows "active_orders (fst (snd (on_fill ev b tr t))) = active_orders b"
    and "snd (snd (on_fill ev b tr t)) = tr"
  using assms by (auto simp: on_fill_def on_fill_body_def Let_def)

lemma on_fill_pops:
  assumes "1 / 10000 \<le> bin_step (config b)"
    and "coin t = token (config b)" "trade_type t = ''FILL''"
  shows "active_orders (fst (snd (on_fill ev b tr t))) (py_round (price t) 4) = None"
proof -
  from level_plus_step [OF assms(1), of "price t"]
  have up: "py_round (py_round (price t) 4 + bin_step (config b)) 4 \<noteq> py_round (price t) 4"
    by simp
  from level_minus_step [OF assms(1), of "price t"]
  have down: "py_round (py_round (price t) 4 - bin_step (config b)) 4 \<noteq> py_round (price t) 4"
    by simp
  show ?thesis
    using assms(2,3) up down
    by (simp add: on_fill_book Let_def split: option.splits)
qed







text \<open>
  C7: a notification for another market, of another kind than a terminal fill, or at
  a price whose rounding is not a key of the order book leaves the order book as it
  was and makes no external call, so no order is placed; nothing is raised.
\<close>

theorem on_fill_ignored:
  assumes "coin t \<noteq> token (config b) \<or> trade_type t \<noteq> ''FILL''
             \<or> active_orders b (py_round (price t) 4) = None"
  shows "active_orders (fst (snd (on_fill ev b tr t))) = active_orders b
       \<and> snd (snd (on_fill ev b tr t)) = tr
       \<and> fst (on_fill ev b tr t) = None"
  using on_fill_untracked [OF assms] by simp

theorem on_fill_ignored_witness:
  "active_orders bot_with_buy (py_round (price fill_at_one) 4) = None
   \<and> active_orders (fst (snd (on_fill env_ok bot_with_buy [] fill_at_one)))
       = active_orders bot_with_buy
   \<and> snd (snd (on_fill env_ok bot_with_buy [] fill_at_one)) = []
   \<and> coin fill_other_market \<noteq> token (config bot_with_buy)
   \<and> active_orders (fst (snd (on_fill env_ok bot_with_buy [] fill_other_market)))
       = active_orders bot_with_buy
   \<and> snd (snd (on_fill env_ok bot_with_buy [] fill_other_market)) = []"
proof -
  have h1: "active_orders bot_with_buy (py_round (price fill_at_one) 4) = None"
    by code_simp
  have h2: "coin fill_other_market \<noteq> token (config bot_with_buy)"
    by code_simp
  from on_fill_ignored [of fill_at_one bot_with_buy env_ok "[]"] h1
  have r1: "active_orders (fst (snd (on_fill env_ok bot_with_buy [] fill_at_one)))
       = active_orders bot_with_buy"
    "snd (snd (on_fill env_ok bot_with_buy [] fill_at_one)) = []"
    by blast+
  from on_fill_ignored [of fill_other_market bot_with_buy env_ok "[]"] h2
  have r2: "active_orders (fst (snd (on_fill env_ok bot_with_buy [] fill_other_market)))
       = active_orders bot_with_buy"
    "snd (snd (on_fill env_ok bot_with_buy [] fill_other_market)) = []"
    by blast+
  from h1 h2 r1 r2 show ?thesis by (intro conjI)
qed



subsection \<open>Start and stop\<close>

lemma book_inv_upd:
  "book_inv book \<Longrightarrow> is_level k \<Longrightarrow> v = ''buy'' \<or> v = ''sell'' \<Longrightarrow> book_inv (book(k \<mapsto> v))"
  by (auto simp: book_inv_def)

lemma book_inv_del: "book_inv book \<Longrightarrow> book_inv (book(k := None))"
  by (auto simp: book_inv_def)

lemma place_order_book_inv:
  assumes "book_inv book" and "lower side = ''buy'' \<or> lower side = ''sell''"
  shows "book_inv (fst (snd (place_order ev cfg p side book tr)))"
  using assms by (auto simp: place_order_book intro: book_inv_upd)

lemma place_order_dom: "dom book \<subseteq> dom (fst (snd (place_order ev cfg p side book tr)))"
  by (auto simp: place_order_book)

lemma place_orders_book_inv:
  assumes "place_orders ev cfg side ps book tr = (r, book', tr')"
    and "book_inv book" and "lower side = ''buy'' \<or> lower side = ''sell''"
  shows "book_inv book'"
  using assms
proof (induction ps arbitrary: book tr)
  case Nil
  then show ?case by simp
next
  case (Cons p ps)
  obtain r1 book1 tr1 where po: "place_order ev cfg p side book tr = (r1, book1, tr1)"
    by (metis prod_cases3)
  from place_order_book_inv [OF Cons.prems(2,3), of ev cfg p tr] po
  have inv1: "book_inv book1" by simp
  show ?case
  proof (cases r1)
    case (Inl e)
    with Cons.prems(1) po inv1 show ?thesis by simp
  next
    case (Inr ok)
    with Cons.prems(1) po have "place_orders ev cfg side ps book1 tr1 = (r, book', tr')"
      by simp
    from Cons.IH [OF this inv1 Cons.prems(3)] show ?thesis .
  qed
qed

lemma place_orders_dom:
  assumes "place_orders ev cfg side ps book tr = (r, book', tr')"
  shows "dom book \<subseteq> dom book'"
  using assms
proof (induction ps arbitrary: book tr)
  case Nil
  then show ?case by simp
next
  case (Cons p ps)
  obtain r1 book1 tr1 where po: "place_order ev cfg p side book tr = (r1, book1, tr1)"
    by (metis prod_cases3)
  from place_order_dom [of book ev cfg p side tr] po
  have d1: "dom book \<subseteq> dom book1" by simp
  show ?case
  proof (cases r1)
    case (Inl e)
    with Cons.prems po d1 show ?thesis by simp
  next
    case (Inr ok)
    with Cons.prems po have "place_orders ev cfg side ps book1 tr1 = (r, book', tr')"
      by simp
    from Cons.IH [OF this] d1 show ?thesis by blast
  qed
qed

text \<open>
  The order book of \<^const>\<open>start_body\<close> is the book it was given, put through the
  buy loop and then the sell loop: what both loops keep, \<^const>\<open>start_body\<close> keeps.
\<close>

lemma start_body_preserves:
  assumes base: "P (active_orders b)"
    and loop: "\<And>side ps book tr r book' tr'.
      place_orders ev (config b) side ps book tr = (r, book', tr')
        \<Longrightarrow> side = ''buy'' \<or> side = ''sell'' \<Longrightarrow> P book \<Longrightarrow> P book'"
  shows "P (active_orders (fst (snd (start_body ev b tr))))"
proof -
  have s1: "P book3"
    if "place_orders ev (config b) ''buy'' buys (active_orders b) tr2 = (r3, book3, tr3)"
    for buys tr2 r3 book3 tr3
    using loop [OF that _ base] by simp
  have s2: "P book4"
    if "place_orders ev (config b) ''buy'' buys (active_orders b) tr2 = (r3, book3, tr3)"
      and "place_orders ev (config b) ''sell'' sells book3 tr3 = (r4, book4, tr4)"
    for buys sells tr2 r3 book3 tr3 r4 book4 tr4
    using loop [OF that(2) _ s1 [OF that(1)]] by simp
  show ?thesis
    using base
    by (auto simp: start_body_def Let_def split: prod.splits sum.splits option.splits
          intro: s1 s2)
qed

lemma start_body_book_inv:
  assumes "book_inv (active_orders b)"
  shows "book_inv (active_orders (fst (snd (start_body ev b tr))))"
proof (rule start_body_preserves [where P = book_inv, OF assms])
  fix side ps book tr r book' tr'
  assume "place_orders ev (config b) side ps book tr = (r, book', tr')"
    and "side = ''buy'' \<or> side = ''sell''" and "book_inv book"
  then show "book_inv book'"
    by (auto intro: place_orders_book_inv)
qed

lemma start_body_dom:
  "dom (active_orders b) \<subseteq> dom (active_orders (fst (snd (start_body ev b tr))))"
proof (rule start_body_preserves [where P = "\<lambda>book. dom (active_orders b) \<subseteq> dom book"])
  show "dom (active_orders b) \<subseteq> dom (active_orders b)" by simp
next
  fix side ps book tr r book' tr'
  assume "place_orders ev (config b) side ps book tr = (r, book', tr')"
    and "dom (active_orders b) \<subseteq> dom book"
  with place_orders_dom [of ev "config b" side ps book tr r book' tr']
  show "dom (active_orders b) \<subseteq> dom book'" by blast
qed

lemma start_body_running:
  "(fst (start_body ev b tr) = None \<longrightarrow> running (fst (snd (start_body ev b tr))))
   \<and> (fst (start_body ev b tr) \<noteq> None \<longrightarrow>
        running (fst (snd (start_body ev b tr))) = running b)"
  by (auto simp: start_body_def Let_def split: prod.splits sum.splits option.splits)

lemma start_book_inv:
  assumes "book_inv (active_orders b)"
  shows "book_inv (active_orders (fst (snd (start ev b tr))))"
proof -
  obtain r b1 tr1 where sb: "start_body ev b tr = (r, b1, tr1)"
    by (metis prod_cases3)
  from start_body_book_inv [OF assms, of ev tr] sb have "book_inv (active_orders b1)"
    by simp
  with assms sb show ?thesis
    by (cases r) (simp_all add: start_def)
qed

lemma start_dom: "dom (active_orders b) \<subseteq> dom (active_orders (fst (snd (start ev b tr))))"
proof -
  obtain r b1 tr1 where sb: "start_body ev b tr = (r, b1, tr1)"
    by (metis prod_cases3)
  from start_body_dom [of b ev tr] sb have "dom (active_orders b) \<subseteq> dom (active_orders b1)"
    by simp
  with sb show ?thesis
    by (cases r) (simp_all add: start_def)
qed

lemma stop_book: "active_orders (fst (snd (stop ev b tr))) = active_orders b"
  by (simp add: stop_def Let_def split: prod.splits option.splits)

text \<open>
  Off the main thread \<^const>\<open>start\<close> returns a boolean. \<^verbatim>\<open>True\<close> comes with
  \<open>running\<close> set, and only from a bot that was not running; \<^verbatim>\<open>False\<close> leaves
  \<open>running\<close> as it was and comes with a new last log entry, \<open>AlreadyRunning\<close> or
  \<open>StartError\<close>.
\<close>

lemma start_off_main_thread:
  assumes "\<not> on_main_thread ev"
  shows "(fst (start ev b tr) = Inr True \<or> fst (start ev b tr) = Inr False)
     \<and> (fst (start ev b tr) = Inr True \<longrightarrow>
          running (fst (snd (start ev b tr))) \<and> \<not> running b)
     \<and> (fst (start ev b tr) = Inr False \<longrightarrow>
          running (fst (snd (start ev b tr))) = running b
          \<and> (last (log_queue (fst (snd (start ev b tr)))) = AlreadyRunning
              \<or> (\<exists>e. last (log_queue (fst (snd (start ev b tr)))) = StartError e)))"
proof -
  obtain r b1 tr1 where sb: "start_body ev b tr = (r, b1, tr1)"
    by (metis prod_cases3)
  from start_body_running [of ev b tr] sb
  have run: "r = None \<longrightarrow> running b1" "r \<noteq> None \<longrightarrow> running b1 = running b"
    by simp_all
  show ?thesis
  proof (cases "running b")
    case True
    with assms show ?thesis by (simp add: start_def)
  next
    case False
    with assms sb run show ?thesis
      by (cases r) (simp_all add: start_def)
  qed
qed

text \<open>When the reference price cannot be fetched, \<^const>\<open>start\<close> reports failure.\<close>

lemma start_price_unavailable:
  assumes "\<not> on_main_thread ev" and "\<not> running b"
    and "cancel_all ev (config b) tr = (None, tr1)"
    and "get_close_price ev (config b) tr1 = (Inl e, tr2)"
  shows "start ev b tr
           = (Inr False, bot_log (bot_log b CancellingOrders) (StartError e), tr2)"
  using assms by (simp add: start_def start_body_def Let_def)

lemma start_already_running:
  assumes "\<not> on_main_thread ev" and "running b"
  shows "start ev b tr = (Inr False, bot_log b AlreadyRunning, tr)"
  using assms by (simp add: start_def)



text \<open>
  C9: \<^const>\<open>stop\<close> leaves the order book as it was, on every path, and
  \<^const>\<open>start\<close> never removes a key. So when an instance is started again after
  \<open>stop\<close>, every level the previous run recorded is still a key of the book while the
  new grid is placed and afterwards.
\<close>

theorem stop_keeps_order_book:
  "active_orders (fst (snd (stop ev b tr))) = active_orders b
   \<and> dom (active_orders b)
       \<subseteq> dom (active_orders (fst (snd (start ev' (fst (snd (stop ev b tr)))
                                              (snd (snd (stop ev b tr)))))))"
proof
  show "active_orders (fst (snd (stop ev b tr))) = active_orders b"
    by (rule stop_book)
  from start_dom [of "fst (snd (stop ev b tr))" ev' "snd (snd (stop ev b tr))"]
  show "dom (active_orders b)
       \<subseteq> dom (active_orders (fst (snd (start ev' (fst (snd (stop ev b tr)))
                                              (snd (snd (stop ev b tr)))))))"
    by (simp add: stop_book)
qed

theorem stop_keeps_order_book_witness:
  "running bot_with_buy
   \<and> fst (stop env_ok bot_with_buy []) = None
   \<and> \<not> running (fst (snd (stop env_ok bot_with_buy [])))
   \<and> active_orders (fst (snd (stop env_ok bot_with_buy []))) = active_orders bot_with_buy
   \<and> fst (start env_ok (fst (snd (stop env_ok bot_with_buy [])))
               (snd (snd (stop env_ok bot_with_buy [])))) = Inr True
   \<and> dom (active_orders bot_with_buy)
       \<subseteq> dom (active_orders (fst (snd (start env_ok (fst (snd (stop env_ok bot_with_buy [])))
                                              (snd (snd (stop env_ok bot_with_buy [])))))))
   \<and> active_orders (fst (snd (start env_ok (fst (snd (stop env_ok bot_with_buy [])))
                                   (snd (snd (stop env_ok bot_with_buy [])))))) (3 / 2)
       = Some ''buy''"
proof -
  have v1: "running bot_with_buy" by code_simp
  have v2: "fst (stop env_ok bot_with_buy []) = None" by code_simp
  have v3: "\<not> running (fst (snd (stop env_ok bot_with_buy [])))" by code_simp
  have v4: "fst (start env_ok (fst (snd (stop env_ok bot_with_buy [])))
               (snd (snd (stop env_ok bot_with_buy [])))) = Inr True"
    by code_simp
  have v5: "active_orders (fst (snd (start env_ok (fst (snd (stop env_ok bot_with_buy [])))
                                   (snd (snd (stop env_ok bot_with_buy [])))))) (3 / 2)
       = Some ''buy''"
    by code_simp
  note main = stop_keeps_order_book [of env_ok bot_with_buy "[]" env_ok]
  from main [THEN conjunct1] main [THEN conjunct2] v1 v2 v3 v4 v5
  show ?thesis by (intro conjI)
qed

text \<open>
  C5, on the main thread: \<^const>\<open>start\<close> raises \<^verbatim>\<open>AttributeError\<close> from its first
  statement. It returns no boolean and adds no log entry; the bot and the trace are as
  they were.
\<close>

theorem start_on_main_thread_raises:
  "start (ev\<lparr>on_main_thread := True\<rparr>) b tr = (Inl AttributeError, b, tr)"
  by (simp add: start_def)

text \<open>
  C4, for an identifier that already has a running bot: \<^const>\<open>start_bot\<close> reports
  success, cancels the open orders, places the orders of a new grid, opens a second
  monitor and replaces the entry of the registry with the new bot.
\<close>

theorem start_bot_restarts_running_bot:
  "(case registry_running ''bot1'' of None \<Rightarrow> False | Some b \<Rightarrow> running b)
   \<and> fst (start_bot env_ok ''bot1'' grid_dict registry_running []) = True
   \<and> snd (snd (start_bot env_ok ''bot1'' grid_dict registry_running []))
       = [NewClient ''0xkey'', UserState, CandlesSnapshot ''ETH'',
          Order ''ETH'' True 1 1 ''0x01'', Order ''ETH'' True 1 (5 / 4) ''0x01'',
          Order ''ETH'' False 1 (7 / 4) ''0x01'', Order ''ETH'' False 1 2 ''0x01'',
          NewMonitor, StartThread 7]
   \<and> (case fst (snd (start_bot env_ok ''bot1'' grid_dict registry_running [])) ''bot1'' of
         None \<Rightarrow> False
       | Some b \<Rightarrow> running b \<and> log_queue b = [CancellingOrders, LastClose (3 / 2), StartedOk]
           \<and> active_orders b (3 / 2) = None \<and> active_orders b 1 = Some ''buy'')"
  by code_simp

end
